theory Spec2Isabelle
  imports Complex_Main
begin

section \<open>Loss values\<close>

text \<open>
  The losses of \<^verbatim>\<open>train.py\<close> are Python floats. The training loop branches on the
  comparisons \<^verbatim>\<open><\<close> and \<^verbatim>\<open>>=\<close> of such values and starts from \<^verbatim>\<open>float('inf')\<close>, so
  the special values are part of the model: both comparisons are false as soon as one
  side is NaN. Finite values are real numbers and their arithmetic is exact (rounding
  and overflow are not modelled).
\<close>

datatype pyfloat = Fin real | PInf | NInf | NaN

fun flt :: "pyfloat \<Rightarrow> pyfloat \<Rightarrow> bool" where
  "flt NaN y = False"
| "flt x NaN = False"
| "flt (Fin a) (Fin b) = (a < b)"
| "flt (Fin a) PInf = True"
| "flt (Fin a) NInf = False"
| "flt PInf y = False"
| "flt NInf NInf = False"
| "flt NInf y = True"

fun fge :: "pyfloat \<Rightarrow> pyfloat \<Rightarrow> bool" where
  "fge NaN y = False"
| "fge x NaN = False"
| "fge (Fin a) (Fin b) = (b \<le> a)"
| "fge (Fin a) PInf = False"
| "fge (Fin a) NInf = True"
| "fge PInf y = True"
| "fge NInf NInf = True"
| "fge NInf y = False"

fun fadd :: "pyfloat \<Rightarrow> pyfloat \<Rightarrow> pyfloat" where
  "fadd NaN y = NaN"
| "fadd x NaN = NaN"
| "fadd (Fin a) (Fin b) = Fin (a + b)"
| "fadd (Fin a) y = y"
| "fadd x (Fin b) = x"
| "fadd PInf PInf = PInf"
| "fadd NInf NInf = NInf"
| "fadd PInf NInf = NaN"
| "fadd NInf PInf = NaN"

text \<open>\<^verbatim>\<open>sum(xs)\<close>: a left fold from \<^verbatim>\<open>0\<close>.\<close>

definition fsum :: "pyfloat list \<Rightarrow> pyfloat" where
  "fsum xs = foldl fadd (Fin 0) xs"

datatype error =
    CheckpointNotFound
  | ValueError
  | ZeroDivisionError
  | SaveFailed
  | ShapeError

text \<open>\<^verbatim>\<open>x / d\<close> for a float \<^verbatim>\<open>x\<close> and an integer \<^verbatim>\<open>d\<close>.\<close>

fun truediv :: "pyfloat \<Rightarrow> int \<Rightarrow> error + pyfloat" where
  "truediv x d =
     (if d = 0 then Inl ZeroDivisionError
      else case x of
        NaN \<Rightarrow> Inr NaN
      | Fin a \<Rightarrow> Inr (Fin (a / of_int d))
      | PInf \<Rightarrow> Inr (if 0 < d then PInf else NInf)
      | NInf \<Rightarrow> Inr (if 0 < d then NInf else PInf))"

text \<open>
  \<^verbatim>\<open>sum(losses) / (len(dataset) // batch_size + 1)\<close>, the reduction of lines 95, 109
  and 124. Python's \<^verbatim>\<open>//\<close> is floor division, as \<open>div\<close> on \<open>int\<close>, and raises on a
  zero divisor.
\<close>

definition denominator :: "nat \<Rightarrow> int \<Rightarrow> error + int" where
  "denominator m b = (if b = 0 then Inl ZeroDivisionError else Inr (int m div b + 1))"

definition mean_loss :: "pyfloat list \<Rightarrow> nat \<Rightarrow> int \<Rightarrow> error + pyfloat" where
  "mean_loss losses m b =
     (case denominator m b of
        Inl e \<Rightarrow> Inl e
      | Inr d \<Rightarrow> truediv (fsum losses) d)"

text \<open>
  The number of batches a \<^verbatim>\<open>DataLoader\<close> (without \<^verbatim>\<open>drop_last\<close>) yields in one pass
  over \<open>m\<close> samples with batch size \<open>b > 0\<close>: the ceiling of \<open>m / b\<close>, the last batch
  may be short.
\<close>

definition num_batches :: "nat \<Rightarrow> int \<Rightarrow> nat" where
  "num_batches m b = nat ((int m + b - 1) div b)"

section \<open>Configuration, collaborators and program state\<close>

record config =
  warm_start :: bool
  warm_start_epoch :: int
  train :: bool
  test :: bool
  train_batch_size :: int
  val_batch_size :: int
  test_batch_size :: int
  epochs :: int
  early_stopping_patience :: int

text \<open>
  The network, the datasets and the loss function are opaque: what the loop sees of
  them is the size of each split and the loss value of each forward pass. These are
  arbitrary functions of the position in the run, so every theorem holds whatever the
  network computes.
\<close>

record env =
  len_trainset :: nat
  len_valset :: nat
  train_loss :: "int \<Rightarrow> nat \<Rightarrow> pyfloat"
  sub_val_loss :: "int \<Rightarrow> nat \<Rightarrow> nat \<Rightarrow> pyfloat"
  end_val_loss :: "int \<Rightarrow> nat \<Rightarrow> pyfloat"
  test_outputs :: "real list list"

text \<open>
  Checkpoint files of the one directory \<^verbatim>\<open>config.ckpt_path\<close>: \<^verbatim>\<open>'epoch-%d.pth'\<close> (read by
  the warm start) and \<^verbatim>\<open>'epoch-%d-%f.pth'\<close> (written by the loop). The loss stands for
  its \<^verbatim>\<open>%f\<close> rendering.
\<close>

datatype ckpt_file = EpochFile int | EpochLossFile int pyfloat

text \<open>What the run prints, sends to the summary writer and does to the file system.\<close>

datatype event =
    LoadedModel int
  | StepReport int int pyfloat
  | BatchTrainLoss pyfloat int
  | SubValReport int pyfloat
  | SavingModel
  | Makedirs
  | TorchSave ckpt_file
  | SaveDone
  | EpochTrainReport int pyfloat
  | EpochValReport int pyfloat
  | EpochLosses pyfloat pyfloat int
  | PatienceMessage int
  | TrainingCompleted

text \<open>
  The variables of \<^verbatim>\<open>main\<close> and the world around it. \<open>checks\<close> is a history variable
  that no branch reads: one entry per epoch that reaches the comparison of line 132,
  with the epoch, its validation mean and the value of \<^verbatim>\<open>init_val_loss\<close> it is compared
  to.
\<close>

record state =
  count :: int
  init_val_loss :: pyfloat
  train_losses :: "pyfloat list"
  val_losses :: "pyfloat list"
  mean_preds :: "real list"
  std_preds :: "pyfloat list"
  dir_exists :: bool
  files :: "ckpt_file set"
  events :: "event list"
  checks :: "(int \<times> pyfloat \<times> pyfloat) list"

datatype flow = Continue | Break | Raise error

datatype stop_reason = patience_exhausted | max_epochs_reached

datatype status = Stopped stop_reason | Failed error

definition emit :: "event list \<Rightarrow> state \<Rightarrow> state" where
  "emit evs s = s\<lparr>events := events s @ evs\<rparr>"

section \<open>The training loop\<close>

text \<open>
  Lines 102--105: create the directory if it is absent, then save into it.
\<close>

definition makedirs_if_absent :: "state \<Rightarrow> state" where
  "makedirs_if_absent s =
     (if \<not> dir_exists s then emit [Makedirs] (s\<lparr>dir_exists := True\<rparr>) else s)"

text \<open>\<^verbatim>\<open>torch.save\<close> into the checkpoint directory raises when the directory is absent.\<close>

definition torch_save :: "ckpt_file \<Rightarrow> state \<Rightarrow> error + state" where
  "torch_save f s =
     (if dir_exists s then Inr (emit [TorchSave f] (s\<lparr>files := insert f (files s)\<rparr>))
      else Inl SaveFailed)"

text \<open>
  Lines 87--95 and 116--124: a pass over the validation set, one loss per batch, reduced
  by \<open>mean_loss\<close>. The network changes between passes, so each pass has its own losses.
\<close>

definition sub_val_mean :: "config \<Rightarrow> env \<Rightarrow> int \<Rightarrow> nat \<Rightarrow> error + pyfloat" where
  "sub_val_mean cfg env epoch i =
     mean_loss
       (map (sub_val_loss env epoch i) [0 ..< num_batches (len_valset env) (val_batch_size cfg)])
       (len_valset env) (val_batch_size cfg)"

definition end_val_mean :: "config \<Rightarrow> env \<Rightarrow> int \<Rightarrow> error + pyfloat" where
  "end_val_mean cfg env epoch =
     mean_loss
       (map (end_val_loss env epoch) [0 ..< num_batches (len_valset env) (val_batch_size cfg)])
       (len_valset env) (val_batch_size cfg)"

text \<open>Lines 86--106: the validation pass run inside the epoch, after step \<open>i\<close> (from 0).\<close>

definition sub_epoch_validation :: "config \<Rightarrow> env \<Rightarrow> int \<Rightarrow> nat \<Rightarrow> state \<Rightarrow> flow \<times> state" where
  "sub_epoch_validation cfg env epoch i s =
     (case sub_val_mean cfg env epoch i of
           Inl e \<Rightarrow> (Raise e, s)
         | Inr avg_val_loss \<Rightarrow>
             (let s1 = emit [SubValReport ((int i + 1) div 6) avg_val_loss]
                         (s\<lparr>val_losses := val_losses s @ [avg_val_loss]\<rparr>)
              in if flt avg_val_loss (init_val_loss s1) then
                   (let s2 = makedirs_if_absent
                               (emit [SavingModel] (s1\<lparr>init_val_loss := avg_val_loss\<rparr>))
                    in case torch_save (EpochLossFile ((int i + 1) div 6) avg_val_loss) s2 of
                         Inl e \<Rightarrow> (Raise e, s2)
                       | Inr s3 \<Rightarrow> (Continue, emit [SaveDone] s3))
                 else (Continue, s1)))"

text \<open>Lines 70--106: one training step; \<open>bl\<close> is \<^verbatim>\<open>batch_losses\<close>.\<close>

definition train_step ::
  "config \<Rightarrow> env \<Rightarrow> int \<Rightarrow> nat \<Rightarrow> pyfloat list \<Rightarrow> state \<Rightarrow> flow \<times> pyfloat list \<times> state" where
  "train_step cfg env epoch i bl s =
     (let loss = train_loss env epoch i;
          bl1 = bl @ [loss]
      in case denominator (len_trainset env) (train_batch_size cfg) of
           Inl e \<Rightarrow> (Raise e, bl1, s)
         | Inr steps \<Rightarrow>
             (let s1 = emit [StepReport (epoch + 1) (int i + 1) loss,
                             BatchTrainLoss loss (int i + epoch * steps)] s
              in if (i + 1) mod 4 = 0 then
                   (case sub_epoch_validation cfg env epoch i s1 of
                      (fl, s2) \<Rightarrow> (fl, bl1, s2))
                 else (Continue, bl1, s1)))"

text \<open>Line 69: the steps of one epoch, in order; an exception ends the run.\<close>

fun train_steps ::
  "config \<Rightarrow> env \<Rightarrow> int \<Rightarrow> nat list \<Rightarrow> pyfloat list \<Rightarrow> state \<Rightarrow> flow \<times> pyfloat list \<times> state" where
  "train_steps cfg env epoch [] bl s = (Continue, bl, s)"
| "train_steps cfg env epoch (i # is) bl s =
     (case train_step cfg env epoch i bl s of
        (Raise e, bl1, s1) \<Rightarrow> (Raise e, bl1, s1)
      | (fl, bl1, s1) \<Rightarrow> train_steps cfg env epoch is bl1 s1)"

text \<open>Lines 130--145: the save of the epoch's checkpoint, then the early-stopping policy.\<close>

definition early_stopping :: "config \<Rightarrow> int \<Rightarrow> pyfloat \<Rightarrow> state \<Rightarrow> flow \<times> state" where
  "early_stopping cfg epoch avg_val_loss s =
     (case torch_save (EpochLossFile (epoch + 1) avg_val_loss) s of
        Inl e \<Rightarrow> (Raise e, s)
      | Inr s0 \<Rightarrow>
          (let s1 = s0\<lparr>checks := checks s0 @ [(epoch, avg_val_loss, init_val_loss s0)]\<rparr>
           in if flt avg_val_loss (init_val_loss s1) then
                (Continue,
                 (emit [SaveDone]
                    (makedirs_if_absent
                       (emit [SavingModel] (s1\<lparr>init_val_loss := avg_val_loss\<rparr>))))
                 \<lparr>count := 0\<rparr>)
              else if fge avg_val_loss (init_val_loss s1) then
                (let s2 = s1\<lparr>count := count s1 + 1\<rparr>
                 in if count s2 = early_stopping_patience cfg then
                      (Break, emit [PatienceMessage (early_stopping_patience cfg)] s2)
                    else (Continue, s2))
              else (Continue, s1)))"

text \<open>
  Lines 109--145: the end of an epoch, after its last step: the training mean, the
  validation pass, the checkpoint and the early-stopping policy.
\<close>

definition epoch_end :: "config \<Rightarrow> env \<Rightarrow> int \<Rightarrow> pyfloat list \<Rightarrow> state \<Rightarrow> flow \<times> state" where
  "epoch_end cfg env epoch batch_losses s =
     (case mean_loss batch_losses (len_trainset env) (train_batch_size cfg) of
        Inl e \<Rightarrow> (Raise e, s)
      | Inr avg_loss \<Rightarrow>
          (let s1 = emit [EpochTrainReport (epoch + 1) avg_loss]
                      (s\<lparr>train_losses := train_losses s @ [avg_loss]\<rparr>)
           in case end_val_mean cfg env epoch of
                Inl e \<Rightarrow> (Raise e, s1)
              | Inr avg_val_loss \<Rightarrow>
                  early_stopping cfg epoch avg_val_loss
                    (emit [EpochValReport (epoch + 1) avg_val_loss,
                           EpochLosses avg_loss avg_val_loss (epoch + 1)]
                       (s1\<lparr>val_losses := val_losses s1 @ [avg_val_loss]\<rparr>))))"

text \<open>Lines 67--145: one iteration of the epoch loop.\<close>

definition run_epoch :: "config \<Rightarrow> env \<Rightarrow> int \<Rightarrow> state \<Rightarrow> flow \<times> state" where
  "run_epoch cfg env epoch s =
     (case train_steps cfg env epoch
             [0 ..< num_batches (len_trainset env) (train_batch_size cfg)] [] s of
        (Raise e, bl, s1) \<Rightarrow> (Raise e, s1)
      | (fl, batch_losses, s1) \<Rightarrow> epoch_end cfg env epoch batch_losses s1)"

text \<open>Line 66: the epoch loop over \<^verbatim>\<open>range(warm_start_epoch, epochs)\<close>, left by \<^verbatim>\<open>break\<close>.\<close>

fun epoch_loop :: "config \<Rightarrow> env \<Rightarrow> int list \<Rightarrow> state \<Rightarrow> status \<times> state" where
  "epoch_loop cfg env [] s = (Stopped max_epochs_reached, s)"
| "epoch_loop cfg env (epoch # rest) s =
     (case run_epoch cfg env epoch s of
        (Raise e, s1) \<Rightarrow> (Failed e, s1)
      | (Break, s1) \<Rightarrow> (Stopped patience_exhausted, s1)
      | (Continue, s1) \<Rightarrow> epoch_loop cfg env rest s1)"

text \<open>
  Lines 53--147. Each \<^verbatim>\<open>DataLoader\<close> refuses a batch size that is not positive.
\<close>

definition train_mode :: "config \<Rightarrow> env \<Rightarrow> state \<Rightarrow> status \<times> state" where
  "train_mode cfg env s =
     (if train_batch_size cfg \<le> 0 \<or> val_batch_size cfg \<le> 0 then (Failed ValueError, s)
      else
        (case epoch_loop cfg env [warm_start_epoch cfg .. epochs cfg - 1]
                (s\<lparr>count := 0, init_val_loss := PInf, train_losses := [], val_losses := [],
                   checks := []\<rparr>) of
           (Failed e, s1) \<Rightarrow> (Failed e, s1)
         | (Stopped r, s1) \<Rightarrow> (Stopped r, emit [TrainingCompleted] s1)))"

section \<open>Test mode\<close>

text \<open>
  Lines 174--179 for one sample. The scores are finite and the arithmetic exact; the
  square root of a negative number is NaN.
\<close>

fun weighted_sum :: "(int \<Rightarrow> real \<Rightarrow> real) \<Rightarrow> int \<Rightarrow> real list \<Rightarrow> real \<Rightarrow> real" where
  "weighted_sum f i [] acc = acc"
| "weighted_sum f i (elem # rest) acc = weighted_sum f (i + 1) rest (acc + f i elem)"

definition predicted_mean :: "real list \<Rightarrow> real" where
  "predicted_mean output = weighted_sum (\<lambda>i elem. of_int i * elem) 1 output 0"

definition predicted_std :: "real list \<Rightarrow> pyfloat" where
  "predicted_std output =
     (let m = predicted_mean output;
          v = weighted_sum (\<lambda>j elem. elem * (of_int j - m) ^ 2) 1 output 0
      in if v < 0 then NaN else Fin (sqrt v))"

text \<open>Lines 170--181: \<^verbatim>\<open>output.view(10, 1)\<close> raises unless the output has ten elements.\<close>

fun test_loop :: "real list list \<Rightarrow> state \<Rightarrow> error option \<times> state" where
  "test_loop [] s = (None, s)"
| "test_loop (output # rest) s =
     (if length output \<noteq> 10 then (Some ShapeError, s)
      else test_loop rest
             (s\<lparr>mean_preds := mean_preds s @ [predicted_mean output],
                std_preds := std_preds s @ [predicted_std output]\<rparr>))"

definition test_mode :: "config \<Rightarrow> env \<Rightarrow> state \<Rightarrow> error option \<times> state" where
  "test_mode cfg env s =
     (if test_batch_size cfg \<le> 0 then (Some ValueError, s)
      else test_loop (test_outputs env) (s\<lparr>mean_preds := [], std_preds := []\<rparr>))"

section \<open>The program\<close>

text \<open>Lines 35--37: \<^verbatim>\<open>torch.load\<close> raises when the file is absent.\<close>

definition load_warm_start :: "config \<Rightarrow> state \<Rightarrow> error + state" where
  "load_warm_start cfg s =
     (if warm_start cfg then
        (if EpochFile (warm_start_epoch cfg) \<in> files s
         then Inr (emit [LoadedModel (warm_start_epoch cfg)] s)
         else Inl CheckpointNotFound)
      else Inr s)"

definition main :: "config \<Rightarrow> env \<Rightarrow> state \<Rightarrow> error option \<times> state" where
  "main cfg env s =
     (case load_warm_start cfg s of
        Inl e \<Rightarrow> (Some e, s)
      | Inr s1 \<Rightarrow>
          (case (if train cfg then train_mode cfg env s1
                 else (Stopped max_epochs_reached, s1)) of
             (Failed e, s2) \<Rightarrow> (Some e, s2)
           | (Stopped r, s2) \<Rightarrow>
               (if test cfg then test_mode cfg env s2 else (None, s2))))"

section \<open>Notions used by the specification\<close>

text \<open>
  An epoch-end check \<open>(epoch, avg, best)\<close> improves when its validation mean is
  strictly below the best value it is compared to. \<open>fail_run\<close> is the number of
  consecutive checks at the end of a history that do not improve.
\<close>

definition improved :: "int \<times> pyfloat \<times> pyfloat \<Rightarrow> bool" where
  "improved c = (case c of (epoch, avg, best) \<Rightarrow> flt avg best)"

definition fail_run :: "(int \<times> pyfloat \<times> pyfloat) list \<Rightarrow> nat" where
  "fail_run cs = length (takeWhile (\<lambda>c. \<not> improved c) (rev cs))"

text \<open>
  The \<open>k\<close>-th check of a history completes \<open>p\<close> consecutive checks without
  improvement: it does not improve, and the run of failures that ends with it has
  length \<open>p\<close>.
\<close>

definition patience_reached :: "int \<Rightarrow> (int \<times> pyfloat \<times> pyfloat) list \<Rightarrow> nat \<Rightarrow> bool" where
  "patience_reached p cs k =
     (k < length cs \<and> \<not> improved (cs ! k) \<and> int (fail_run (take (Suc k) cs)) = p)"

text \<open>
  The branch of line 141 is taken by a check that stalls: its mean is not below the
  best value and is greater than or equal to it. A check whose mean is NaN neither
  improves nor stalls. \<open>stall_count\<close> replays the counter on a history: back to 0 at an
  improving check, one more at a stalling check, unchanged otherwise.
\<close>

definition stalled :: "int \<times> pyfloat \<times> pyfloat \<Rightarrow> bool" where
  "stalled c = (case c of (epoch, avg, best) \<Rightarrow> \<not> flt avg best \<and> fge avg best)"

definition stall_count :: "(int \<times> pyfloat \<times> pyfloat) list \<Rightarrow> nat" where
  "stall_count cs =
     foldl (\<lambda>n c. if improved c then 0 else if stalled c then Suc n else n) 0 cs"

definition counter_reached :: "int \<Rightarrow> (int \<times> pyfloat \<times> pyfloat) list \<Rightarrow> nat \<Rightarrow> bool" where
  "counter_reached p cs k =
     (k < length cs \<and> stalled (cs ! k) \<and> int (stall_count (take (Suc k) cs)) = p)"

text \<open>
  The \<open>k\<close>-th epoch of the history has its checkpoint: the file labelled with the
  epoch number counted from 1 and the epoch's validation mean exists, and the pair of
  the epoch's training mean and validation mean has been sent to the summary writer.
\<close>

definition epoch_checkpointed :: "config \<Rightarrow> env \<Rightarrow> state \<Rightarrow> nat \<Rightarrow> bool" where
  "epoch_checkpointed cfg env s k =
     (case checks s ! k of
        (epoch, avg, best) \<Rightarrow>
          end_val_mean cfg env epoch = Inr avg \<and>
          EpochLossFile (epoch + 1) avg \<in> files s \<and>
          EpochLosses (train_losses s ! k) avg (epoch + 1) \<in> set (events s))"


section \<open>Concrete runs\<close>

text \<open>
  A family of small runs: batch size 2 for every split and a validation set of one
  sample, so that a validation pass has one batch and its mean is that batch's loss
  (the divisor is \<open>1 div 2 + 1 = 1\<close>). The training set has \<open>n\<close> samples; every
  validation pass inside epoch \<open>e\<close> reports \<open>f e\<close> and the pass at its end \<open>g e\<close>.
\<close>

definition example_config :: "int \<Rightarrow> int \<Rightarrow> config" where
  "example_config e p =
     \<lparr>warm_start = False, warm_start_epoch = 0, train = True, test = False,
      train_batch_size = 2, val_batch_size = 2, test_batch_size = 1,
      epochs = e, early_stopping_patience = p\<rparr>"

definition example_env :: "nat \<Rightarrow> (int \<Rightarrow> pyfloat) \<Rightarrow> (int \<Rightarrow> pyfloat) \<Rightarrow> env" where
  "example_env n f g =
     \<lparr>len_trainset = n, len_valset = 1,
      train_loss = (\<lambda>epoch i. Fin 1),
      sub_val_loss = (\<lambda>epoch i j. f epoch),
      end_val_loss = (\<lambda>epoch j. g epoch),
      test_outputs = []\<rparr>"

text \<open>
  A validation set of 90 samples read in batches of 30: three batches, each with loss 1.
\<close>

definition ninety_config :: config where
  "ninety_config =
     \<lparr>warm_start = False, warm_start_epoch = 0, train = True, test = False,
      train_batch_size = 2, val_batch_size = 30, test_batch_size = 1,
      epochs = 1, early_stopping_patience = 10\<rparr>"

definition ninety_env :: env where
  "ninety_env =
     \<lparr>len_trainset = 8, len_valset = 90,
      train_loss = (\<lambda>epoch i. Fin 1),
      sub_val_loss = (\<lambda>epoch i j. Fin 1),
      end_val_loss = (\<lambda>epoch j. Fin 1),
      test_outputs = []\<rparr>"



text \<open>Every validation pass reports NaN; one training step per epoch.\<close>

definition nan_env :: env where
  "nan_env = example_env 1 (\<lambda>epoch. NaN) (\<lambda>epoch. NaN)"

text \<open>The state before \<^verbatim>\<open>main\<close> runs: nothing printed, no checkpoint file.\<close>

definition fresh_state :: "bool \<Rightarrow> state" where
  "fresh_state d =
     \<lparr>count = 0, init_val_loss = PInf, train_losses = [], val_losses = [],
      mean_preds = [], std_preds = [], dir_exists = d, files = {}, events = [],
      checks = []\<rparr>"

section \<open>Properties of the loss values\<close>

lemma flt_not_fge: "flt a b \<Longrightarrow> \<not> fge a b"
  by (cases a; cases b) auto

lemma flt_or_fge: "a \<noteq> NaN \<Longrightarrow> b \<noteq> NaN \<Longrightarrow> flt a b \<or> fge a b"
  by (cases a; cases b) auto

lemma flt_trans: "flt a b \<Longrightarrow> flt b c \<Longrightarrow> flt a c"
  by (cases a; cases b; cases c) auto

lemma flt_not_NaN: "flt a b \<Longrightarrow> a \<noteq> NaN \<and> b \<noteq> NaN"
  by (cases a; cases b) auto

section \<open>The steps of an epoch\<close>

lemma denominator_pos: "0 < b \<Longrightarrow> \<exists>d. denominator m b = Inr d \<and> 0 < d"
  by (simp add: denominator_def pos_imp_zdiv_nonneg_iff add_nonneg_pos)

lemma mean_loss_ok: "0 < b \<Longrightarrow> \<exists>a. mean_loss xs m b = Inr a"
  using denominator_pos [of b m]
  by (auto simp: mean_loss_def split: pyfloat.splits)

lemma sub_epoch_validation_frame:
  assumes "sub_epoch_validation cfg env epoch i s = (fl, s')"
  shows "count s' = count s \<and> checks s' = checks s \<and> train_losses s' = train_losses s"
  using assms
  by (auto simp: sub_epoch_validation_def emit_def makedirs_if_absent_def torch_save_def Let_def
      split: sum.splits if_splits)

lemma sub_epoch_validation_best:
  assumes "sub_epoch_validation cfg env epoch i s = (fl, s')"
  shows "init_val_loss s' = init_val_loss s \<or> flt (init_val_loss s') (init_val_loss s)"
  using assms
  by (auto simp: sub_epoch_validation_def emit_def makedirs_if_absent_def torch_save_def Let_def
      split: sum.splits if_splits)

lemma sub_epoch_validation_world:
  assumes "sub_epoch_validation cfg env epoch i s = (fl, s')"
  shows "files s \<subseteq> files s' \<and> (dir_exists s \<longrightarrow> dir_exists s') \<and> set (events s) \<subseteq> set (events s')"
  using assms
  by (auto simp: sub_epoch_validation_def emit_def makedirs_if_absent_def torch_save_def Let_def
      split: sum.splits if_splits)

lemma sub_val_mean_ok: "0 < val_batch_size cfg \<Longrightarrow> \<exists>a. sub_val_mean cfg env epoch i = Inr a"
  unfolding sub_val_mean_def by (rule mean_loss_ok)

lemma end_val_mean_ok: "0 < val_batch_size cfg \<Longrightarrow> \<exists>a. end_val_mean cfg env epoch = Inr a"
  unfolding end_val_mean_def by (rule mean_loss_ok)

lemma sub_epoch_validation_ok:
  assumes "0 < val_batch_size cfg"
  shows "fst (sub_epoch_validation cfg env epoch i s) = Continue"
proof -
  obtain a where "sub_val_mean cfg env epoch i = Inr a"
    using sub_val_mean_ok [OF assms] by blast
  then show ?thesis
    by (simp add: sub_epoch_validation_def emit_def makedirs_if_absent_def torch_save_def Let_def)
qed

lemma train_step_frame:
  assumes "train_step cfg env epoch i bl s = (fl, bl', s')"
  shows "count s' = count s \<and> checks s' = checks s \<and> train_losses s' = train_losses s"
  using assms sub_epoch_validation_frame
  by (fastforce simp: train_step_def emit_def Let_def split: sum.splits if_splits prod.splits)

lemma train_step_best:
  assumes "train_step cfg env epoch i bl s = (fl, bl', s')"
  shows "init_val_loss s' = init_val_loss s \<or> flt (init_val_loss s') (init_val_loss s)"
  using assms sub_epoch_validation_best
  by (fastforce simp: train_step_def emit_def Let_def split: sum.splits if_splits prod.splits)

lemma train_step_world:
  assumes "train_step cfg env epoch i bl s = (fl, bl', s')"
  shows "files s \<subseteq> files s' \<and> (dir_exists s \<longrightarrow> dir_exists s') \<and> set (events s) \<subseteq> set (events s')"
  using assms sub_epoch_validation_world
  by (fastforce simp: train_step_def emit_def Let_def split: sum.splits if_splits prod.splits)

lemma train_step_ok:
  assumes "0 < train_batch_size cfg" "0 < val_batch_size cfg"
  shows "\<exists>s'. train_step cfg env epoch i bl s = (Continue, bl @ [train_loss env epoch i], s')"
proof -
  obtain d where d: "denominator (len_trainset env) (train_batch_size cfg) = Inr d"
    using denominator_pos [OF assms(1)] by blast
  show ?thesis
  proof (cases "(i + 1) mod 4 = 0")
    case True
    obtain fl s2 where r: "sub_epoch_validation cfg env epoch i
        (emit [StepReport (epoch + 1) (int i + 1) (train_loss env epoch i),
               BatchTrainLoss (train_loss env epoch i) (int i + epoch * d)] s) = (fl, s2)"
      by (cases "sub_epoch_validation cfg env epoch i
        (emit [StepReport (epoch + 1) (int i + 1) (train_loss env epoch i),
               BatchTrainLoss (train_loss env epoch i) (int i + epoch * d)] s)") 
    have "fl = Continue"
      using sub_epoch_validation_ok [OF assms(2), of env epoch i] r
      by (metis fst_conv)
    with r d True show ?thesis
      by (simp add: train_step_def Let_def)
  next
    case False
    with d show ?thesis
      by (simp add: train_step_def Let_def)
  qed
qed

lemma train_steps_rel:
  assumes refl: "\<And>s. R s s"
    and trans: "\<And>s1 s2 s3. R s1 s2 \<Longrightarrow> R s2 s3 \<Longrightarrow> R s1 s3"
    and step: "\<And>i bl s fl bl' s'. train_step cfg env epoch i bl s = (fl, bl', s') \<Longrightarrow> R s s'"
  shows "train_steps cfg env epoch is bl s = (fl, bl', s') \<Longrightarrow> R s s'"
proof (induction "is" arbitrary: bl s)
  case Nil
  then show ?case using refl by simp
next
  case (Cons i "is")
  obtain f1 b1 s1 where st: "train_step cfg env epoch i bl s = (f1, b1, s1)"
    by (cases "train_step cfg env epoch i bl s")
  note r1 = step [OF st]
  show ?case
  proof (cases "\<exists>e. f1 = Raise e")
    case True
    with Cons.prems st r1 show ?thesis by auto
  next
    case False
    with Cons.prems st have "train_steps cfg env epoch is b1 s1 = (fl, bl', s')"
      by (cases f1) auto
    from trans [OF r1 Cons.IH [OF this]] show ?thesis .
  qed
qed

lemma train_steps_frame:
  assumes "train_steps cfg env epoch is bl s = (fl, bl', s')"
  shows "count s' = count s \<and> checks s' = checks s \<and> train_losses s' = train_losses s"
  by (rule train_steps_rel [where R = "\<lambda>s s'. count s' = count s \<and> checks s' = checks s
        \<and> train_losses s' = train_losses s", OF _ _ _ assms])
     (simp_all add: train_step_frame)

lemma train_steps_best:
  assumes "train_steps cfg env epoch is bl s = (fl, bl', s')"
  shows "init_val_loss s' = init_val_loss s \<or> flt (init_val_loss s') (init_val_loss s)"
  by (rule train_steps_rel [where R = "\<lambda>s s'. init_val_loss s' = init_val_loss s
        \<or> flt (init_val_loss s') (init_val_loss s)", OF _ _ _ assms])
     (auto dest: train_step_best flt_trans)

lemma train_steps_world:
  assumes "train_steps cfg env epoch is bl s = (fl, bl', s')"
  shows "files s \<subseteq> files s' \<and> (dir_exists s \<longrightarrow> dir_exists s') \<and> set (events s) \<subseteq> set (events s')"
  by (rule train_steps_rel [where R = "\<lambda>s s'. files s \<subseteq> files s' \<and> (dir_exists s \<longrightarrow> dir_exists s')
        \<and> set (events s) \<subseteq> set (events s')", OF _ _ _ assms])
     (auto dest: train_step_world)

lemma train_steps_ok:
  assumes "0 < train_batch_size cfg" "0 < val_batch_size cfg"
  shows "\<exists>bl' s'. train_steps cfg env epoch is bl s = (Continue, bl', s')"
proof (induction "is" arbitrary: bl s)
  case Nil
  then show ?case by simp
next
  case (Cons i "is")
  obtain s1 where "train_step cfg env epoch i bl s = (Continue, bl @ [train_loss env epoch i], s1)"
    using train_step_ok [OF assms] by blast
  with Cons.IH [of "bl @ [train_loss env epoch i]" s1] show ?case by simp
qed

lemma early_stopping_absent:
  "\<not> dir_exists s \<Longrightarrow> early_stopping cfg epoch avg s = (Raise SaveFailed, s)"
  by (simp add: early_stopping_def torch_save_def)

lemma early_stopping_present:
  assumes "dir_exists s"
  shows "early_stopping cfg epoch avg s =
    (let s1 = s\<lparr>files := insert (EpochLossFile (epoch + 1) avg) (files s),
                  events := events s @ [TorchSave (EpochLossFile (epoch + 1) avg)],
                  checks := checks s @ [(epoch, avg, init_val_loss s)]\<rparr>
     in if flt avg (init_val_loss s) then
          (Continue, s1\<lparr>init_val_loss := avg, events := events s1 @ [SavingModel, SaveDone],
                         count := 0\<rparr>)
        else if fge avg (init_val_loss s) then
          (if count s + 1 = early_stopping_patience cfg then
             (Break, s1\<lparr>count := count s + 1,
                          events := events s1 @ [PatienceMessage (early_stopping_patience cfg)]\<rparr>)
           else (Continue, s1\<lparr>count := count s + 1\<rparr>))
        else (Continue, s1))"
  using assms
  by (simp add: early_stopping_def torch_save_def emit_def makedirs_if_absent_def Let_def)

lemma run_epoch_decomp:
  assumes "0 < train_batch_size cfg" "0 < val_batch_size cfg"
  shows "\<exists>bl s1 avg_loss avg.
      train_steps cfg env epoch [0 ..< num_batches (len_trainset env) (train_batch_size cfg)] [] s
        = (Continue, bl, s1) \<and>
      mean_loss bl (len_trainset env) (train_batch_size cfg) = Inr avg_loss \<and>
      end_val_mean cfg env epoch = Inr avg \<and>
      run_epoch cfg env epoch s =
        early_stopping cfg epoch avg
          (s1\<lparr>train_losses := train_losses s1 @ [avg_loss],
               val_losses := val_losses s1 @ [avg],
               events := events s1 @ [EpochTrainReport (epoch + 1) avg_loss,
                 EpochValReport (epoch + 1) avg, EpochLosses avg_loss avg (epoch + 1)]\<rparr>)"
proof -
  obtain bl s1 where ts: "train_steps cfg env epoch
      [0 ..< num_batches (len_trainset env) (train_batch_size cfg)] [] s = (Continue, bl, s1)"
    using train_steps_ok [OF assms] by blast
  obtain avg_loss where al: "mean_loss bl (len_trainset env) (train_batch_size cfg) = Inr avg_loss"
    using mean_loss_ok [OF assms(1)] by blast
  obtain avg where av: "end_val_mean cfg env epoch = Inr avg"
    using end_val_mean_ok [OF assms(2)] by blast
  show ?thesis
    using ts al av by (simp add: run_epoch_def epoch_end_def emit_def Let_def)
qed

section \<open>Epochs and the epoch loop\<close>


lemma early_stopping_world:
  assumes "early_stopping cfg epoch avg s = (fl, s')"
  shows "files s \<subseteq> files s' \<and> (dir_exists s \<longrightarrow> dir_exists s') \<and> set (events s) \<subseteq> set (events s')"
  using assms
  by (auto simp: early_stopping_def torch_save_def emit_def makedirs_if_absent_def Let_def
      split: if_splits)


lemma epoch_end_world:
  assumes "epoch_end cfg env epoch bl s = (fl, s')"
  shows "files s \<subseteq> files s' \<and> (dir_exists s \<longrightarrow> dir_exists s') \<and> set (events s) \<subseteq> set (events s')"
  using assms
  by (auto simp: epoch_end_def emit_def Let_def split: sum.splits dest!: early_stopping_world)

lemma run_epoch_split:
  assumes "run_epoch cfg env epoch s = (fl, s')"
  shows "\<exists>f1 bl s1. train_steps cfg env epoch
        [0 ..< num_batches (len_trainset env) (train_batch_size cfg)] [] s = (f1, bl, s1) \<and>
      ((\<exists>e. f1 = Raise e \<and> fl = f1 \<and> s' = s1) \<or> epoch_end cfg env epoch bl s1 = (fl, s'))"
  using assms
  by (auto simp: run_epoch_def split: prod.splits flow.splits)


lemma run_epoch_world:
  assumes "run_epoch cfg env epoch s = (fl, s')"
  shows "files s \<subseteq> files s' \<and> (dir_exists s \<longrightarrow> dir_exists s') \<and> set (events s) \<subseteq> set (events s')"
proof -
  obtain f1 bl s1 where ts: "train_steps cfg env epoch
        [0 ..< num_batches (len_trainset env) (train_batch_size cfg)] [] s = (f1, bl, s1)"
    and d: "s' = s1 \<or> epoch_end cfg env epoch bl s1 = (fl, s')"
    using run_epoch_split [OF assms] by blast
  from d show ?thesis
  proof
    assume "s' = s1"
    with train_steps_world [OF ts] show ?thesis by simp
  next
    assume "epoch_end cfg env epoch bl s1 = (fl, s')"
    from epoch_end_world [OF this] train_steps_world [OF ts] show ?thesis by blast
  qed
qed




section \<open>The validation pass inside an epoch\<close>

lemma sub_epoch_validation_cases:
  assumes "sub_val_mean cfg env epoch i = Inr avg"
  shows "sub_epoch_validation cfg env epoch i s =
     (Continue,
      if flt avg (init_val_loss s) then
        s\<lparr>val_losses := val_losses s @ [avg], init_val_loss := avg, dir_exists := True,
          files := insert (EpochLossFile ((int i + 1) div 6) avg) (files s),
          events := events s @ [SubValReport ((int i + 1) div 6) avg, SavingModel]
             @ (if dir_exists s then [] else [Makedirs])
             @ [TorchSave (EpochLossFile ((int i + 1) div 6) avg), SaveDone]\<rparr>
      else s\<lparr>val_losses := val_losses s @ [avg],
             events := events s @ [SubValReport ((int i + 1) div 6) avg]\<rparr>)"
  using assms
  by (simp add: sub_epoch_validation_def emit_def makedirs_if_absent_def torch_save_def Let_def)




section \<open>The divisor of the validation mean\<close>

lemma ceil_batches:
  fixes b :: int
  assumes "0 < b"
  shows "(int m div b + 1 = int (num_batches m b)) = (\<not> b dvd int m)"
proof -
  define r where "r = int m mod b"
  define q where "q = int m div b"
  have r: "0 \<le> r" "r < b"
    using assms by (simp_all add: r_def)
  have m: "int m = b * q + r" by (simp add: r_def q_def)
  have nb: "int (num_batches m b) = (int m + b - 1) div b"
    using assms by (simp add: num_batches_def pos_imp_zdiv_nonneg_iff)
  have dv: "(b dvd int m) = (r = 0)"
    by (simp add: r_def dvd_eq_mod_eq_0)
  show ?thesis
  proof (cases "r = 0")
    case True
    have "int m + b - 1 = b * q + (b - 1)" using m True by simp
    then have "(int m + b - 1) div b = q"
      by (rule int_div_pos_eq) (use assms in simp_all)
    with True dv nb q_def show ?thesis by simp
  next
    case False
    have "int m + b - 1 = b * (q + 1) + (r - 1)" using m by (simp add: algebra_simps)
    then have "(int m + b - 1) div b = q + 1"
      by (rule int_div_pos_eq) (use r False in simp_all)
    with False dv nb q_def show ?thesis by simp
  qed
qed

lemma early_stopping_losses:
  assumes "early_stopping cfg epoch avg s = (fl, s')"
  shows "val_losses s' = val_losses s \<and> train_losses s' = train_losses s"
  using assms
  by (auto simp: early_stopping_def torch_save_def emit_def makedirs_if_absent_def Let_def
      split: if_splits)

lemma mean_loss_eq:
  "b \<noteq> 0 \<Longrightarrow> mean_loss losses m b = truediv (fsum losses) (int m div b + 1)"
  by (simp add: mean_loss_def denominator_def)

text \<open>
  C3: the validation pass inside the epoch and the one at its end both divide the sum
  of the per-batch losses by \<open>len(valset) div val_batch_size + 1\<close>, which is the number
  of batches only when the batch size does not divide the size of the set; for 100
  samples and batch size 30 the divisor is 4.
\<close>

theorem validation_mean_divisor:
  assumes "0 < train_batch_size cfg" and "0 < val_batch_size cfg"
  shows "\<exists>avg_sub avg_end.
      truediv
        (fsum (map (sub_val_loss env epoch i)
           [0 ..< num_batches (len_valset env) (val_batch_size cfg)]))
        (int (len_valset env) div val_batch_size cfg + 1) = Inr avg_sub \<and>
      val_losses (snd (sub_epoch_validation cfg env epoch i s)) = val_losses s @ [avg_sub] \<and>
      truediv
        (fsum (map (end_val_loss env epoch)
           [0 ..< num_batches (len_valset env) (val_batch_size cfg)]))
        (int (len_valset env) div val_batch_size cfg + 1) = Inr avg_end \<and>
      last (val_losses (snd (run_epoch cfg env epoch s))) = avg_end \<and>
      EpochValReport (epoch + 1) avg_end \<in> set (events (snd (run_epoch cfg env epoch s))) \<and>
      ((int (len_valset env) div val_batch_size cfg + 1
          = int (num_batches (len_valset env) (val_batch_size cfg)))
        = (\<not> val_batch_size cfg dvd int (len_valset env))) \<and>
      denominator 100 30 = Inr 4"
proof -
  have nz: "val_batch_size cfg \<noteq> 0" using assms(2) by simp
  obtain avg_sub where a: "sub_val_mean cfg env epoch i = Inr avg_sub"
    using sub_val_mean_ok [OF assms(2)] by blast
  obtain bl s1 avg_loss avg_end where e: "end_val_mean cfg env epoch = Inr avg_end"
    and r: "run_epoch cfg env epoch s =
        early_stopping cfg epoch avg_end
          (s1\<lparr>train_losses := train_losses s1 @ [avg_loss],
               val_losses := val_losses s1 @ [avg_end],
               events := events s1 @ [EpochTrainReport (epoch + 1) avg_loss,
                 EpochValReport (epoch + 1) avg_end, EpochLosses avg_loss avg_end (epoch + 1)]\<rparr>)"
    using run_epoch_decomp [OF assms, of env epoch s] by blast
  obtain fl s' where es: "run_epoch cfg env epoch s = (fl, s')"
    by (cases "run_epoch cfg env epoch s")
  have 1: "truediv (fsum (map (sub_val_loss env epoch i)
           [0 ..< num_batches (len_valset env) (val_batch_size cfg)]))
        (int (len_valset env) div val_batch_size cfg + 1) = Inr avg_sub"
    using a nz by (simp add: sub_val_mean_def mean_loss_eq)
  have 2: "val_losses (snd (sub_epoch_validation cfg env epoch i s)) = val_losses s @ [avg_sub]"
    by (simp add: sub_epoch_validation_cases [OF a])
  have 3: "truediv (fsum (map (end_val_loss env epoch)
           [0 ..< num_batches (len_valset env) (val_batch_size cfg)]))
        (int (len_valset env) div val_batch_size cfg + 1) = Inr avg_end"
    using e nz by (simp add: end_val_mean_def mean_loss_eq)
  have 4: "last (val_losses (snd (run_epoch cfg env epoch s))) = avg_end"
    using early_stopping_losses [OF es [unfolded r]] es by simp
  have 5: "EpochValReport (epoch + 1) avg_end \<in> set (events (snd (run_epoch cfg env epoch s)))"
    using early_stopping_world [OF es [unfolded r]] es by auto
  have 6: "denominator 100 30 = Inr 4"
    by (simp add: denominator_def)
  show ?thesis
    using 1 2 3 4 5 6 ceil_batches [OF assms(2), of "len_valset env"]
    by (intro exI conjI) assumption+
qed

text \<open>
  C3 on a validation set of 90 samples read in batches of 30: the three batches have
  loss 1 each and both passes report \<open>3 / 4\<close>, the sum divided by \<open>90 div 30 + 1 = 4\<close>.
\<close>

theorem validation_mean_divisor_witness:
  "0 < train_batch_size ninety_config \<and> 0 < val_batch_size ninety_config \<and>
   num_batches (len_valset ninety_env) (val_batch_size ninety_config) = 3 \<and>
   val_losses (snd (sub_epoch_validation ninety_config ninety_env 0 3 (fresh_state True)))
     = [Fin (3 / 4)] \<and>
   last (val_losses (snd (run_epoch ninety_config ninety_env 0 (fresh_state True))))
     = Fin (3 / 4) \<and>
   denominator 100 30 = Inr 4"
proof -
  have h1: "0 < train_batch_size ninety_config" and h2: "0 < val_batch_size ninety_config"
    by (simp_all add: ninety_config_def)
  have n: "num_batches (len_valset ninety_env) (val_batch_size ninety_config) = 3"
    by (simp add: num_batches_def ninety_config_def ninety_env_def)
  from validation_mean_divisor [OF h1 h2, of ninety_env 0 3 "fresh_state True"]
  obtain avg_sub avg_end where
    s: "truediv (fsum (map (sub_val_loss ninety_env 0 3)
           [0 ..< num_batches (len_valset ninety_env) (val_batch_size ninety_config)]))
        (int (len_valset ninety_env) div val_batch_size ninety_config + 1) = Inr avg_sub"
    and a: "val_losses (snd (sub_epoch_validation ninety_config ninety_env 0 3 (fresh_state True)))
          = val_losses (fresh_state True) @ [avg_sub]"
    and e: "truediv (fsum (map (end_val_loss ninety_env 0)
           [0 ..< num_batches (len_valset ninety_env) (val_batch_size ninety_config)]))
        (int (len_valset ninety_env) div val_batch_size ninety_config + 1) = Inr avg_end"
    and b: "last (val_losses (snd (run_epoch ninety_config ninety_env 0 (fresh_state True)))) = avg_end"
    and c: "denominator 100 30 = Inr 4"
    by (elim exE conjE) (rule that)
  have "avg_sub = Fin (3 / 4)"
    using s unfolding n by (simp add: ninety_config_def ninety_env_def fsum_def upt_rec)
  moreover have "avg_end = Fin (3 / 4)"
    using e unfolding n by (simp add: ninety_config_def ninety_env_def fsum_def upt_rec)
  ultimately show ?thesis
    using h1 h2 n a b c by (simp add: fresh_state_def)
qed

section \<open>The best validation loss\<close>




section \<open>The patience counter\<close>





section \<open>Early stopping\<close>

lemma run_epoch_summary:
  assumes tb: "0 < train_batch_size cfg" and vb: "0 < val_batch_size cfg"
    and r: "run_epoch cfg env epoch s = (fl, s')"
  shows "\<exists>avg b avg_loss.
      end_val_mean cfg env epoch = Inr avg \<and>
      (b = init_val_loss s \<or> flt b (init_val_loss s)) \<and>
      train_losses s' = train_losses s @ [avg_loss] \<and>
      EpochLosses avg_loss avg (epoch + 1) \<in> set (events s') \<and>
      ((fl = Raise SaveFailed \<and> checks s' = checks s \<and> count s' = count s \<and>
        init_val_loss s' = b \<and> \<not> dir_exists s') \<or>
       (checks s' = checks s @ [(epoch, avg, b)] \<and>
        EpochLossFile (epoch + 1) avg \<in> files s' \<and> dir_exists s' \<and>
        (if flt avg b then fl = Continue \<and> count s' = 0 \<and> init_val_loss s' = avg
         else if fge avg b then
           count s' = count s + 1 \<and> init_val_loss s' = b \<and>
           fl = (if count s + 1 = early_stopping_patience cfg then Break else Continue)
         else fl = Continue \<and> count s' = count s \<and> init_val_loss s' = b)))"
proof -
  obtain bl s1 avg_loss avg where
    ts: "train_steps cfg env epoch
        [0 ..< num_batches (len_trainset env) (train_batch_size cfg)] [] s = (Continue, bl, s1)"
    and av: "end_val_mean cfg env epoch = Inr avg"
    and re: "run_epoch cfg env epoch s =
        early_stopping cfg epoch avg
          (s1\<lparr>train_losses := train_losses s1 @ [avg_loss],
               val_losses := val_losses s1 @ [avg],
               events := events s1 @ [EpochTrainReport (epoch + 1) avg_loss,
                 EpochValReport (epoch + 1) avg, EpochLosses avg_loss avg (epoch + 1)]\<rparr>)"
    using run_epoch_decomp [OF tb vb, of env epoch s] by blast
  let ?s2 = "s1\<lparr>train_losses := train_losses s1 @ [avg_loss],
               val_losses := val_losses s1 @ [avg],
               events := events s1 @ [EpochTrainReport (epoch + 1) avg_loss,
                 EpochValReport (epoch + 1) avg, EpochLosses avg_loss avg (epoch + 1)]\<rparr>"
  have es: "early_stopping cfg epoch avg ?s2 = (fl, s')"
    using r re by simp
  note fr = train_steps_frame [OF ts]
  note be = train_steps_best [OF ts]
  have ev: "EpochLosses avg_loss avg (epoch + 1) \<in> set (events s')"
    using early_stopping_world [OF es] by auto
  have tl: "train_losses s' = train_losses s @ [avg_loss]"
    using early_stopping_losses [OF es] fr by simp
  have b: "init_val_loss s1 = init_val_loss s \<or> flt (init_val_loss s1) (init_val_loss s)"
    using be .
  have main: "(fl = Raise SaveFailed \<and> checks s' = checks s \<and> count s' = count s \<and>
        init_val_loss s' = init_val_loss s1 \<and> \<not> dir_exists s') \<or>
       (checks s' = checks s @ [(epoch, avg, init_val_loss s1)] \<and>
        EpochLossFile (epoch + 1) avg \<in> files s' \<and> dir_exists s' \<and>
        (if flt avg (init_val_loss s1) then fl = Continue \<and> count s' = 0 \<and> init_val_loss s' = avg
         else if fge avg (init_val_loss s1) then
           count s' = count s + 1 \<and> init_val_loss s' = init_val_loss s1 \<and>
           fl = (if count s + 1 = early_stopping_patience cfg then Break else Continue)
         else fl = Continue \<and> count s' = count s \<and> init_val_loss s' = init_val_loss s1))"
  proof (cases "dir_exists ?s2")
    case False
    have "early_stopping cfg epoch avg ?s2 = (Raise SaveFailed, ?s2)"
      by (rule early_stopping_absent [OF False])
    with es have "fl = Raise SaveFailed" and "s' = ?s2" by simp_all
    with False fr show ?thesis by simp
  next
    case d: True
    then have d1: "dir_exists s1" by simp
    note p = early_stopping_present [OF d, of cfg epoch avg]
    show ?thesis
    proof (cases "flt avg (init_val_loss s1)")
      case True
      with es p fr d1 show ?thesis by (auto simp: Let_def)
    next
      case nf: False
      show ?thesis
      proof (cases "fge avg (init_val_loss s1)")
        case True
        with nf es p fr d1 show ?thesis by (auto simp: Let_def split: if_splits)
      next
        case False
        with nf es p fr d1 show ?thesis by (auto simp: Let_def)
      qed
    qed
  qed
  show ?thesis
    using av b tl ev main by (intro exI conjI) assumption+
qed

lemma fail_run_snoc:
  "fail_run (cs @ [c]) = (if improved c then 0 else Suc (fail_run cs))"
  by (simp add: fail_run_def)

lemma patience_reached_snoc:
  "patience_reached p (cs @ [c]) k =
     (patience_reached p cs k \<or>
      (k = length cs \<and> \<not> improved c \<and> int (fail_run (cs @ [c])) = p))"
  by (auto simp: patience_reached_def nth_append less_Suc_eq)

lemma epoch_loop_length:
  assumes tb: "0 < train_batch_size cfg" and vb: "0 < val_batch_size cfg"
  shows "epoch_loop cfg env es s = (st, s') \<Longrightarrow>
     length (train_losses s') \<le> length (train_losses s) + length es \<and>
     length (checks s') \<le> length (checks s) + length es \<and>
     (st = Stopped max_epochs_reached \<longrightarrow>
        length (train_losses s') = length (train_losses s) + length es \<and>
        map fst (checks s') = map fst (checks s) @ es)"
proof (induction es arbitrary: s)
  case Nil
  then show ?case by auto
next
  case (Cons epoch es)
  obtain fl s1 where r: "run_epoch cfg env epoch s = (fl, s1)"
    by (cases "run_epoch cfg env epoch s")
  from run_epoch_summary [OF tb vb r]
  have tl: "length (train_losses s1) = length (train_losses s) + 1"
    and ck: "checks s1 = checks s \<or> (\<exists>c. checks s1 = checks s @ [c] \<and> fst c = epoch)"
    and cc: "fl \<noteq> Raise SaveFailed \<longrightarrow> (\<exists>c. checks s1 = checks s @ [c] \<and> fst c = epoch)"
    by auto
  show ?case
  proof (cases fl)
    case Continue
    with Cons.prems r have "epoch_loop cfg env es s1 = (st, s')" by simp
    from Cons.IH [OF this] tl ck cc Continue show ?thesis by auto
  next
    case Break
    with Cons.prems r have "st = Stopped patience_exhausted" "s' = s1" by simp_all
    with tl ck show ?thesis by auto
  next
    case (Raise e)
    with Cons.prems r have "st = Failed e" "s' = s1" by simp_all
    with tl ck show ?thesis by auto
  qed
qed

lemma epoch_loop_patience:
  assumes tb: "0 < train_batch_size cfg" and vb: "0 < val_batch_size cfg"
  shows "epoch_loop cfg env es s = (st, s') \<Longrightarrow>
     \<forall>e \<in> set es. end_val_mean cfg env e \<noteq> Inr NaN \<Longrightarrow>
     count s = int (fail_run (checks s)) \<Longrightarrow> init_val_loss s \<noteq> NaN \<Longrightarrow>
     (\<forall>k. \<not> patience_reached (early_stopping_patience cfg) (checks s) k) \<Longrightarrow>
     (st = Stopped patience_exhausted) =
        (\<exists>k. patience_reached (early_stopping_patience cfg) (checks s') k) \<and>
     (st = Stopped patience_exhausted \<longrightarrow>
        checks s' \<noteq> [] \<and>
        patience_reached (early_stopping_patience cfg) (checks s') (length (checks s') - 1))"
proof (induction es arbitrary: s)
  case Nil
  then show ?case by auto
next
  case (Cons epoch es)
  let ?p = "early_stopping_patience cfg"
  obtain fl s1 where r: "run_epoch cfg env epoch s = (fl, s1)"
    by (cases "run_epoch cfg env epoch s")
  from run_epoch_summary [OF tb vb r]
  obtain avg b avg_loss where av: "end_val_mean cfg env epoch = Inr avg"
    and b: "b = init_val_loss s \<or> flt b (init_val_loss s)"
    and d: "(fl = Raise SaveFailed \<and> checks s1 = checks s \<and> count s1 = count s \<and>
        init_val_loss s1 = b \<and> \<not> dir_exists s1) \<or>
       (checks s1 = checks s @ [(epoch, avg, b)] \<and>
        EpochLossFile (epoch + 1) avg \<in> files s1 \<and> dir_exists s1 \<and>
        (if flt avg b then fl = Continue \<and> count s1 = 0 \<and> init_val_loss s1 = avg
         else if fge avg b then
           count s1 = count s + 1 \<and> init_val_loss s1 = b \<and>
           fl = (if count s + 1 = ?p then Break else Continue)
         else fl = Continue \<and> count s1 = count s \<and> init_val_loss s1 = b))"
    by blast
  have nan: "\<forall>e \<in> set es. end_val_mean cfg env e \<noteq> Inr NaN"
    using Cons.prems(2) by simp
  have avn: "avg \<noteq> NaN" using Cons.prems(2) av by auto
  have bn: "b \<noteq> NaN" using b Cons.prems(4) flt_not_NaN [of b "init_val_loss s"] by auto
  from d show ?case
  proof
    assume f: "fl = Raise SaveFailed \<and> checks s1 = checks s \<and> count s1 = count s \<and>
        init_val_loss s1 = b \<and> \<not> dir_exists s1"
    with Cons.prems(1) r have "st = Failed SaveFailed" "s' = s1" by simp_all
    with f Cons.prems(5) show ?thesis by simp
  next
    assume c: "checks s1 = checks s @ [(epoch, avg, b)] \<and>
        EpochLossFile (epoch + 1) avg \<in> files s1 \<and> dir_exists s1 \<and>
        (if flt avg b then fl = Continue \<and> count s1 = 0 \<and> init_val_loss s1 = avg
         else if fge avg b then
           count s1 = count s + 1 \<and> init_val_loss s1 = b \<and>
           fl = (if count s + 1 = ?p then Break else Continue)
         else fl = Continue \<and> count s1 = count s \<and> init_val_loss s1 = b)"
    then have cs: "checks s1 = checks s @ [(epoch, avg, b)]" by simp
    have im: "improved (epoch, avg, b) = flt avg b" by (simp add: improved_def)
    show ?thesis
    proof (cases "flt avg b")
      case True
      with c have st: "fl = Continue" "count s1 = 0" "init_val_loss s1 = avg" by simp_all
      have i1: "count s1 = int (fail_run (checks s1))"
        using st cs True im by (simp add: fail_run_snoc)
      have i3: "\<forall>k. \<not> patience_reached ?p (checks s1) k"
        using Cons.prems(5) cs True im by (simp add: patience_reached_snoc)
      from Cons.prems(1) r st have "epoch_loop cfg env es s1 = (st, s')" by simp
      from Cons.IH [OF this nan i1 _ i3] st avn show ?thesis by simp
    next
      case False
      with avn bn have ge: "fge avg b" using flt_or_fge by blast
      with c False have st: "count s1 = count s + 1" "init_val_loss s1 = b"
        "fl = (if count s + 1 = ?p then Break else Continue)" by simp_all
      have i1: "count s1 = int (fail_run (checks s1))"
        using st cs False im Cons.prems(3) by (simp add: fail_run_snoc)
      show ?thesis
      proof (cases "count s + 1 = ?p")
        case True
        with st Cons.prems(1) r have e: "st = Stopped patience_exhausted" "s' = s1" by simp_all
        have "patience_reached ?p (checks s1) (length (checks s))"
          using cs False im i1 st True by (simp add: patience_reached_snoc)
        with e cs show ?thesis by auto
      next
        case ne: False
        with st have "fl = Continue" by simp
        with Cons.prems(1) r have l: "epoch_loop cfg env es s1 = (st, s')" by simp
        have i3: "\<forall>k. \<not> patience_reached ?p (checks s1) k"
          using Cons.prems(5) cs ne i1 st by (simp add: patience_reached_snoc)
        from Cons.IH [OF l nan i1 _ i3] st bn show ?thesis by simp
      qed
    qed
  qed
qed

lemma stall_count_snoc:
  "stall_count (cs @ [c]) =
     (if improved c then 0 else if stalled c then Suc (stall_count cs) else stall_count cs)"
  by (simp add: stall_count_def)

lemma counter_reached_snoc:
  "counter_reached p (cs @ [c]) k =
     (counter_reached p cs k \<or>
      (k = length cs \<and> stalled c \<and> int (stall_count (cs @ [c])) = p))"
  by (auto simp: counter_reached_def nth_append less_Suc_eq)

lemma epoch_loop_counter:
  assumes tb: "0 < train_batch_size cfg" and vb: "0 < val_batch_size cfg"
  shows "epoch_loop cfg env es s = (st, s') \<Longrightarrow>
     count s = int (stall_count (checks s)) \<Longrightarrow>
     (\<forall>k. \<not> counter_reached (early_stopping_patience cfg) (checks s) k) \<Longrightarrow>
     (st = Stopped patience_exhausted) =
        (\<exists>k. counter_reached (early_stopping_patience cfg) (checks s') k) \<and>
     (st = Stopped patience_exhausted \<longrightarrow>
        checks s' \<noteq> [] \<and> count s' = early_stopping_patience cfg \<and>
        counter_reached (early_stopping_patience cfg) (checks s') (length (checks s') - 1))"
proof (induction es arbitrary: s)
  case Nil
  then show ?case by auto
next
  case (Cons epoch es)
  let ?p = "early_stopping_patience cfg"
  obtain fl s1 where r: "run_epoch cfg env epoch s = (fl, s1)"
    by (cases "run_epoch cfg env epoch s")
  from run_epoch_summary [OF tb vb r]
  obtain avg b avg_loss where
    d: "(fl = Raise SaveFailed \<and> checks s1 = checks s \<and> count s1 = count s \<and>
        init_val_loss s1 = b \<and> \<not> dir_exists s1) \<or>
       (checks s1 = checks s @ [(epoch, avg, b)] \<and>
        EpochLossFile (epoch + 1) avg \<in> files s1 \<and> dir_exists s1 \<and>
        (if flt avg b then fl = Continue \<and> count s1 = 0 \<and> init_val_loss s1 = avg
         else if fge avg b then
           count s1 = count s + 1 \<and> init_val_loss s1 = b \<and>
           fl = (if count s + 1 = ?p then Break else Continue)
         else fl = Continue \<and> count s1 = count s \<and> init_val_loss s1 = b))"
    by blast
  from d show ?case
  proof
    assume f: "fl = Raise SaveFailed \<and> checks s1 = checks s \<and> count s1 = count s \<and>
        init_val_loss s1 = b \<and> \<not> dir_exists s1"
    with Cons.prems(1) r have "st = Failed SaveFailed" "s' = s1" by simp_all
    with f Cons.prems(3) show ?thesis by simp
  next
    assume c: "checks s1 = checks s @ [(epoch, avg, b)] \<and>
        EpochLossFile (epoch + 1) avg \<in> files s1 \<and> dir_exists s1 \<and>
        (if flt avg b then fl = Continue \<and> count s1 = 0 \<and> init_val_loss s1 = avg
         else if fge avg b then
           count s1 = count s + 1 \<and> init_val_loss s1 = b \<and>
           fl = (if count s + 1 = ?p then Break else Continue)
         else fl = Continue \<and> count s1 = count s \<and> init_val_loss s1 = b)"
    then have cs: "checks s1 = checks s @ [(epoch, avg, b)]" by simp
    have im: "improved (epoch, avg, b) = flt avg b" by (simp add: improved_def)
    have sl: "stalled (epoch, avg, b) = (\<not> flt avg b \<and> fge avg b)" by (simp add: stalled_def)
    have i1: "count s1 = int (stall_count (checks s1))"
      using c cs im sl Cons.prems(2) by (auto simp: stall_count_snoc split: if_splits)
    show ?thesis
    proof (cases "\<not> flt avg b \<and> fge avg b \<and> count s + 1 = ?p")
      case True
      with c Cons.prems(1) r have e: "st = Stopped patience_exhausted" "s' = s1" "count s1 = ?p"
        by simp_all
      have "counter_reached ?p (checks s1) (length (checks s))"
        using cs sl i1 e True by (simp add: counter_reached_snoc)
      with e cs show ?thesis by auto
    next
      case False
      with c have fl: "fl = Continue" by (auto split: if_splits)
      with Cons.prems(1) r have l: "epoch_loop cfg env es s1 = (st, s')" by simp
      have "\<not> (stalled (epoch, avg, b) \<and> int (stall_count (checks s1)) = ?p)"
        using False c sl i1 by (auto split: if_splits)
      then have i3: "\<forall>k. \<not> counter_reached ?p (checks s1) k"
        using Cons.prems(3) cs by (simp add: counter_reached_snoc)
      from Cons.IH [OF l i1 i3] show ?thesis .
    qed
  qed
qed

lemma train_mode_loop:
  assumes tb: "0 < train_batch_size cfg" and vb: "0 < val_batch_size cfg"
    and r: "train_mode cfg env s = (st, s')"
  shows "\<exists>s1. epoch_loop cfg env [warm_start_epoch cfg .. epochs cfg - 1]
          (s\<lparr>count := 0, init_val_loss := PInf, train_losses := [], val_losses := [],
             checks := []\<rparr>) = (st, s1) \<and>
        train_losses s' = train_losses s1 \<and> checks s' = checks s1 \<and> count s' = count s1 \<and>
        files s' = files s1 \<and> dir_exists s' = dir_exists s1 \<and>
        set (events s1) \<subseteq> set (events s')"
proof -
  let ?s0 = "s\<lparr>count := 0, init_val_loss := PInf, train_losses := [], val_losses := [],
                 checks := []\<rparr>"
  obtain st1 s1 where l: "epoch_loop cfg env [warm_start_epoch cfg .. epochs cfg - 1] ?s0 = (st1, s1)"
    by (cases "epoch_loop cfg env [warm_start_epoch cfg .. epochs cfg - 1] ?s0")
  with r tb vb show ?thesis
    by (cases st1) (auto simp: train_mode_def emit_def)
qed

text \<open>
  C1, as amended: the epoch loop runs at most \<open>epochs - warm_start_epoch\<close> epochs,
  hence at most \<open>epochs\<close> of them when the warm-start epoch is not negative, and it is
  left by the \<^verbatim>\<open>break\<close> of line 145 exactly when the patience counter reaches
  \<open>early_stopping_patience\<close> at an epoch-end check: that check stalls (its mean is
  greater than or equal to the best validation loss so far) and it is the
  \<open>early_stopping_patience\<close>-th stalling check since the last improving one, a check
  with a NaN mean neither counting nor resetting. That check is the last of the run.
  When no epoch-end validation mean is NaN this says: exactly when some check
  completes \<open>early_stopping_patience\<close> consecutive checks that fail to improve on the
  best validation loss so far.
\<close>

theorem break_exactly_when_counter_reaches_patience:
  assumes "0 < train_batch_size cfg" and "0 < val_batch_size cfg"
    and "train_mode cfg env s = (st, s')"
  shows "length (train_losses s') \<le> nat (epochs cfg - warm_start_epoch cfg) \<and>
     (1 \<le> epochs cfg \<and> 0 \<le> warm_start_epoch cfg \<longrightarrow>
        int (length (train_losses s')) \<le> epochs cfg) \<and>
     ((st = Stopped patience_exhausted) =
        (\<exists>k. counter_reached (early_stopping_patience cfg) (checks s') k)) \<and>
     (st = Stopped patience_exhausted \<longrightarrow>
        checks s' \<noteq> [] \<and> count s' = early_stopping_patience cfg \<and>
        counter_reached (early_stopping_patience cfg) (checks s') (length (checks s') - 1)) \<and>
     ((\<forall>e \<in> {warm_start_epoch cfg ..< epochs cfg}. end_val_mean cfg env e \<noteq> Inr NaN) \<longrightarrow>
        ((st = Stopped patience_exhausted) =
           (\<exists>k. patience_reached (early_stopping_patience cfg) (checks s') k)) \<and>
        (st = Stopped patience_exhausted \<longrightarrow>
           patience_reached (early_stopping_patience cfg) (checks s') (length (checks s') - 1)))"
proof -
  let ?s0 = "s\<lparr>count := 0, init_val_loss := PInf, train_losses := [], val_losses := [],
                 checks := []\<rparr>"
  let ?es = "[warm_start_epoch cfg .. epochs cfg - 1]"
  let ?p = "early_stopping_patience cfg"
  obtain s1 where l: "epoch_loop cfg env ?es ?s0 = (st, s1)"
    and tl: "train_losses s' = train_losses s1" and ck: "checks s' = checks s1"
    and ct: "count s' = count s1"
    using train_mode_loop [OF assms] by blast
  have len: "length (train_losses s1) \<le> length ?es"
    using epoch_loop_length [OF assms(1,2) l] by simp
  have n: "length ?es = nat (epochs cfg - warm_start_epoch cfg)"
    by simp
  have c: "(st = Stopped patience_exhausted) = (\<exists>k. counter_reached ?p (checks s1) k) \<and>
     (st = Stopped patience_exhausted \<longrightarrow>
        checks s1 \<noteq> [] \<and> count s1 = ?p \<and>
        counter_reached ?p (checks s1) (length (checks s1) - 1))"
    by (rule epoch_loop_counter [OF assms(1,2) l])
       (simp_all add: stall_count_def counter_reached_def)
  have p: "(st = Stopped patience_exhausted) = (\<exists>k. patience_reached ?p (checks s1) k) \<and>
     (st = Stopped patience_exhausted \<longrightarrow>
        checks s1 \<noteq> [] \<and> patience_reached ?p (checks s1) (length (checks s1) - 1))"
    if "\<forall>e \<in> {warm_start_epoch cfg ..< epochs cfg}. end_val_mean cfg env e \<noteq> Inr NaN"
  proof -
    from that have nan: "\<forall>e \<in> set ?es. end_val_mean cfg env e \<noteq> Inr NaN"
      by auto
    show ?thesis
      by (rule epoch_loop_patience [OF assms(1,2) l nan])
         (simp_all add: fail_run_def patience_reached_def)
  qed
  have 1: "length (train_losses s') \<le> nat (epochs cfg - warm_start_epoch cfg)"
    using len n tl by simp
  then have 2: "1 \<le> epochs cfg \<and> 0 \<le> warm_start_epoch cfg \<longrightarrow>
        int (length (train_losses s')) \<le> epochs cfg"
    by auto
  from 1 2 c p ck ct show ?thesis by simp
qed

text \<open>
  The amended C1 on the scenario of the specification: five epochs allowed, patience
  1, the validation means 0.5 and then 0.6. The run is left by \<^verbatim>\<open>break\<close> after two
  epochs, at the second check.
\<close>

theorem break_exactly_when_counter_reaches_patience_witness:
  "0 < train_batch_size (example_config 5 1) \<and> 0 < val_batch_size (example_config 5 1) \<and>
   (\<forall>e. end_val_mean (example_config 5 1)
      (example_env 1 (\<lambda>e. NaN) (\<lambda>e. if e = 0 then Fin (1 / 2) else Fin (3 / 5))) e \<noteq> Inr NaN) \<and>
   fst (train_mode (example_config 5 1)
      (example_env 1 (\<lambda>e. NaN) (\<lambda>e. if e = 0 then Fin (1 / 2) else Fin (3 / 5)))
      (fresh_state True)) = Stopped patience_exhausted \<and>
   length (train_losses (snd (train_mode (example_config 5 1)
      (example_env 1 (\<lambda>e. NaN) (\<lambda>e. if e = 0 then Fin (1 / 2) else Fin (3 / 5)))
      (fresh_state True)))) = 2 \<and>
   counter_reached 1 (checks (snd (train_mode (example_config 5 1)
      (example_env 1 (\<lambda>e. NaN) (\<lambda>e. if e = 0 then Fin (1 / 2) else Fin (3 / 5)))
      (fresh_state True)))) 1 \<and>
   patience_reached 1 (checks (snd (train_mode (example_config 5 1)
      (example_env 1 (\<lambda>e. NaN) (\<lambda>e. if e = 0 then Fin (1 / 2) else Fin (3 / 5)))
      (fresh_state True)))) 1"
proof -
  let ?C = "example_config 5 1"
  let ?E = "example_env 1 (\<lambda>e. NaN) (\<lambda>e. if e = 0 then Fin (1 / 2) else Fin (3 / 5))"
  let ?r = "train_mode ?C ?E (fresh_state True)"
  have h1: "0 < train_batch_size ?C" and h2: "0 < val_batch_size ?C"
    by (simp_all add: example_config_def)
  have h3: "\<forall>e. end_val_mean ?C ?E e \<noteq> Inr NaN"
    by (simp add: end_val_mean_def mean_loss_def denominator_def num_batches_def fsum_def
        example_config_def example_env_def)
  then have h3': "\<forall>e \<in> {warm_start_epoch ?C ..< epochs ?C}. end_val_mean ?C ?E e \<noteq> Inr NaN"
    by blast
  have f: "fst ?r = Stopped patience_exhausted"
    by code_simp
  have n: "length (train_losses (snd ?r)) = 2"
    by code_simp
  have c: "length (checks (snd ?r)) = 2"
    by code_simp
  have r: "?r = (Stopped patience_exhausted, snd ?r)"
    using f by (metis prod.collapse)
  note t = break_exactly_when_counter_reaches_patience [OF h1 h2 r]
  have "counter_reached (early_stopping_patience ?C) (checks (snd ?r))
      (length (checks (snd ?r)) - 1)"
    using t by blast
  then have a: "counter_reached 1 (checks (snd ?r)) 1"
    using c by (simp add: example_config_def)
  have "patience_reached (early_stopping_patience ?C) (checks (snd ?r))
      (length (checks (snd ?r)) - 1)"
    using t h3' by blast
  then have b: "patience_reached 1 (checks (snd ?r)) 1"
    using c by (simp add: example_config_def)
  from h1 h2 h3 f n a b show ?thesis by blast
qed

text \<open>
  C1 as stated fails. With patience 1, three epochs allowed and every epoch-end
  validation mean NaN, the first check already fails to improve on the best
  validation loss (NaN is not below plus infinity), so one consecutive failing check
  is complete; but the counter stays 0, the loop is not left early and all three
  epochs run. And with one epoch allowed and the warm-start epoch \<open>-1\<close> (warm start
  itself switched off) the loop runs the two epochs of \<^verbatim>\<open>range(-1, 1)\<close>.
\<close>

theorem nan_checks_never_stop_the_run:
  "fst (train_mode (example_config 3 1) nan_env (fresh_state True))
     = Stopped max_epochs_reached \<and>
   checks (snd (train_mode (example_config 3 1) nan_env (fresh_state True)))
     = [(0, NaN, PInf), (1, NaN, PInf), (2, NaN, PInf)] \<and>
   patience_reached 1
     (checks (snd (train_mode (example_config 3 1) nan_env (fresh_state True)))) 0 \<and>
   count (snd (train_mode (example_config 3 1) nan_env (fresh_state True))) = 0 \<and>
   length (train_losses (snd (train_mode (example_config 3 1) nan_env (fresh_state True)))) = 3 \<and>
   epochs ((example_config 1 9)\<lparr>warm_start_epoch := - 1\<rparr>) = 1 \<and>
   length (train_losses (snd (train_mode ((example_config 1 9)\<lparr>warm_start_epoch := - 1\<rparr>)
     (example_env 1 (\<lambda>e. Fin 1) (\<lambda>e. Fin 1)) (fresh_state True)))) = 2"
  by code_simp




section \<open>Checkpoints\<close>

lemma epoch_loop_checkpoints:
  assumes tb: "0 < train_batch_size cfg" and vb: "0 < val_batch_size cfg"
  shows "epoch_loop cfg env es s = (st, s') \<Longrightarrow>
     length (checks s) = length (train_losses s) \<Longrightarrow>
     (\<forall>k < length (checks s). epoch_checkpointed cfg env s k) \<Longrightarrow>
     (\<forall>k < length (checks s'). epoch_checkpointed cfg env s' k) \<and>
     (\<exists>n. map fst (checks s') = map fst (checks s) @ take n es) \<and>
     (st \<noteq> Failed SaveFailed \<longrightarrow> length (checks s') = length (train_losses s'))"
proof (induction es arbitrary: s)
  case Nil
  then show ?case by auto
next
  case (Cons epoch es)
  obtain fl s1 where r: "run_epoch cfg env epoch s = (fl, s1)"
    by (cases "run_epoch cfg env epoch s")
  from run_epoch_summary [OF tb vb r]
  obtain avg b avg_loss where av: "end_val_mean cfg env epoch = Inr avg"
    and tl: "train_losses s1 = train_losses s @ [avg_loss]"
    and ev: "EpochLosses avg_loss avg (epoch + 1) \<in> set (events s1)"
    and d: "(fl = Raise SaveFailed \<and> checks s1 = checks s) \<or>
       (checks s1 = checks s @ [(epoch, avg, b)] \<and>
        EpochLossFile (epoch + 1) avg \<in> files s1 \<and> fl \<noteq> Raise SaveFailed)"
    by (auto split: if_splits)
  note w = run_epoch_world [OF r]
  have old: "epoch_checkpointed cfg env s1 k" if "k < length (checks s)" for k
  proof -
    from that Cons.prems(3) have c: "epoch_checkpointed cfg env s k" by simp
    have 1: "checks s1 ! k = checks s ! k"
      using d that by (auto simp: nth_append)
    have 2: "train_losses s1 ! k = train_losses s ! k"
      using tl that Cons.prems(2) by (simp add: nth_append)
    from c w show ?thesis
      unfolding epoch_checkpointed_def 1 2 by (auto split: prod.splits)
  qed
  from d show ?case
  proof
    assume f: "fl = Raise SaveFailed \<and> checks s1 = checks s"
    with Cons.prems(1) r have e: "st = Failed SaveFailed" "s' = s1" by simp_all
    have "map fst (checks s') = map fst (checks s) @ take 0 (epoch # es)"
      using e f by simp
    then have "\<exists>n. map fst (checks s') = map fst (checks s) @ take n (epoch # es)" ..
    with e f old show ?thesis by simp
  next
    assume c: "checks s1 = checks s @ [(epoch, avg, b)] \<and>
        EpochLossFile (epoch + 1) avg \<in> files s1 \<and> fl \<noteq> Raise SaveFailed"
    have new: "epoch_checkpointed cfg env s1 (length (checks s))"
      using c tl av ev Cons.prems(2) by (simp add: epoch_checkpointed_def nth_append)
    have all: "\<forall>k < length (checks s1). epoch_checkpointed cfg env s1 k"
      using old new c by (auto simp: less_Suc_eq)
    have len: "length (checks s1) = length (train_losses s1)"
      using c tl Cons.prems(2) by simp
    show ?thesis
    proof (cases fl)
      case Continue
      with Cons.prems(1) r have l: "epoch_loop cfg env es s1 = (st, s')" by simp
      from Cons.IH [OF l len all] obtain n where
        a: "\<forall>k < length (checks s'). epoch_checkpointed cfg env s' k"
        and m: "map fst (checks s') = map fst (checks s1) @ take n es"
        and z: "st \<noteq> Failed SaveFailed \<longrightarrow> length (checks s') = length (train_losses s')"
        by blast
      have "map fst (checks s') = map fst (checks s) @ take (Suc n) (epoch # es)"
        using m c by simp
      then have "\<exists>n. map fst (checks s') = map fst (checks s) @ take n (epoch # es)" ..
      with a z show ?thesis by simp
    next
      case Break
      with Cons.prems(1) r have e: "st = Stopped patience_exhausted" "s' = s1" by simp_all
      have "map fst (checks s') = map fst (checks s) @ take (Suc 0) (epoch # es)"
        using e c by simp
      then have "\<exists>n. map fst (checks s') = map fst (checks s) @ take n (epoch # es)" ..
      with e all len show ?thesis by simp
    next
      case (Raise x)
      from run_epoch_summary [OF tb vb r] Raise c have False
        by (auto split: if_splits)
      then show ?thesis ..
    qed
  qed
qed

text \<open>
  What the code does for the epochs whose save succeeds: the save of line 130 comes
  before the comparison with the best validation loss and does not depend on it, so
  every epoch that reaches the comparison has, at the end of the run, the checkpoint
  file labelled with its number counted from 1 and its validation mean, and its paired
  means have been sent to the summary writer. In a run that is not aborted by the save
  these are all the epochs that were run.
\<close>

lemma checkpoints_of_checked_epochs:
  assumes "0 < train_batch_size cfg" and "0 < val_batch_size cfg"
    and "train_mode cfg env s = (st, s')"
  shows "(\<forall>k < length (checks s'). epoch_checkpointed cfg env s' k) \<and>
     (\<exists>n. map fst (checks s') = take n [warm_start_epoch cfg .. epochs cfg - 1]) \<and>
     (st \<noteq> Failed SaveFailed \<longrightarrow> length (checks s') = length (train_losses s')) \<and>
     (dir_exists t \<longrightarrow>
        fst (early_stopping cfg epoch avg t) \<noteq> Raise SaveFailed \<and>
        EpochLossFile (epoch + 1) avg \<in> files (snd (early_stopping cfg epoch avg t)))"
proof -
  let ?s0 = "s\<lparr>count := 0, init_val_loss := PInf, train_losses := [], val_losses := [],
                 checks := []\<rparr>"
  let ?es = "[warm_start_epoch cfg .. epochs cfg - 1]"
  obtain s1 where l: "epoch_loop cfg env ?es ?s0 = (st, s1)"
    and tl: "train_losses s' = train_losses s1" and ck: "checks s' = checks s1"
    and fi: "files s' = files s1" and ev: "set (events s1) \<subseteq> set (events s')"
    using train_mode_loop [OF assms] by blast
  have "(\<forall>k < length (checks s1). epoch_checkpointed cfg env s1 k) \<and>
     (\<exists>n. map fst (checks s1) = map fst (checks ?s0) @ take n ?es) \<and>
     (st \<noteq> Failed SaveFailed \<longrightarrow> length (checks s1) = length (train_losses s1))"
    by (rule epoch_loop_checkpoints [OF assms(1,2) l]) simp_all
  then have a: "\<forall>k < length (checks s1). epoch_checkpointed cfg env s1 k"
    and b: "\<exists>n. map fst (checks s1) = take n ?es"
    and c: "st \<noteq> Failed SaveFailed \<longrightarrow> length (checks s1) = length (train_losses s1)"
    by simp_all
  have a': "\<forall>k < length (checks s'). epoch_checkpointed cfg env s' k"
    using a ev unfolding epoch_checkpointed_def tl ck fi
    by (auto split: prod.splits)
  have d: "dir_exists t \<longrightarrow>
        fst (early_stopping cfg epoch avg t) \<noteq> Raise SaveFailed \<and>
        EpochLossFile (epoch + 1) avg \<in> files (snd (early_stopping cfg epoch avg t))"
    by (simp add: early_stopping_present Let_def)
  from a' b c d tl ck show ?thesis by simp
qed

text \<open>
  C6 fails on the code. In a first run with no checkpoint directory, one epoch and a
  training set of one batch, the epoch is run to its end: its training step, its
  training mean and its validation pass are done and the paired means are sent to the
  summary writer. The save that follows (line 130) raises, because nothing has created
  the directory, and the run ends there: no checkpoint labelled with the epoch exists,
  and no file at all. This is the defect of lines 130 and 136--137 that C7 is about.
\<close>

theorem epoch_run_without_checkpoint:
  "fst (train_mode (example_config 1 10) (example_env 1 (\<lambda>e. Fin 1) (\<lambda>e. Fin 1))
     (fresh_state False)) = Failed SaveFailed \<and>
   train_losses (snd (train_mode (example_config 1 10)
     (example_env 1 (\<lambda>e. Fin 1) (\<lambda>e. Fin 1)) (fresh_state False))) = [Fin 1] \<and>
   val_losses (snd (train_mode (example_config 1 10)
     (example_env 1 (\<lambda>e. Fin 1) (\<lambda>e. Fin 1)) (fresh_state False))) = [Fin 1] \<and>
   events (snd (train_mode (example_config 1 10)
     (example_env 1 (\<lambda>e. Fin 1) (\<lambda>e. Fin 1)) (fresh_state False)))
     = [StepReport 1 1 (Fin 1), BatchTrainLoss (Fin 1) 0, EpochTrainReport 1 (Fin 1),
        EpochValReport 1 (Fin 1), EpochLosses (Fin 1) (Fin 1) 1] \<and>
   EpochLossFile 1 (Fin 1) \<notin> files (snd (train_mode (example_config 1 10)
     (example_env 1 (\<lambda>e. Fin 1) (\<lambda>e. Fin 1)) (fresh_state False))) \<and>
   files (snd (train_mode (example_config 1 10)
     (example_env 1 (\<lambda>e. Fin 1) (\<lambda>e. Fin 1)) (fresh_state False))) = {} \<and>
   checks (snd (train_mode (example_config 1 10)
     (example_env 1 (\<lambda>e. Fin 1) (\<lambda>e. Fin 1)) (fresh_state False))) = []"
  by (simp add: train_mode_def example_config_def
      example_env_def fresh_state_def run_epoch_def epoch_end_def train_step_def
      sub_epoch_validation_def early_stopping_def torch_save_def emit_def
      makedirs_if_absent_def mean_loss_def denominator_def num_batches_def end_val_mean_def
      sub_val_mean_def fsum_def Let_def upto.simps upt_rec)

text \<open>
  C7 fails on the code. A first run with no checkpoint directory, one epoch and a
  training set of one batch (so no validation pass inside the epoch): the save of line
  130 is attempted while the directory is absent and raises; no directory is ever
  created and no checkpoint is written. The validation pass inside an epoch, from the
  same state, does create the directory before it saves.
\<close>

theorem epoch_end_save_without_directory:
  "fst (main (example_config 1 10) (example_env 1 (\<lambda>e. Fin 1) (\<lambda>e. Fin 1))
     (fresh_state False)) = Some SaveFailed \<and>
   \<not> dir_exists (snd (main (example_config 1 10) (example_env 1 (\<lambda>e. Fin 1) (\<lambda>e. Fin 1))
     (fresh_state False))) \<and>
   events (snd (main (example_config 1 10) (example_env 1 (\<lambda>e. Fin 1) (\<lambda>e. Fin 1))
     (fresh_state False)))
     = [StepReport 1 1 (Fin 1), BatchTrainLoss (Fin 1) 0, EpochTrainReport 1 (Fin 1),
        EpochValReport 1 (Fin 1), EpochLosses (Fin 1) (Fin 1) 1] \<and>
   early_stopping (example_config 1 10) 0 (Fin 1) (fresh_state False)
     = (Raise SaveFailed, fresh_state False) \<and>
   events (snd (sub_epoch_validation (example_config 1 10)
     (example_env 1 (\<lambda>e. Fin 1) (\<lambda>e. Fin 1)) 0 3 (fresh_state False)))
     = [SubValReport 0 (Fin 1), SavingModel, Makedirs, TorchSave (EpochLossFile 0 (Fin 1)),
        SaveDone]"
  by (simp add: main_def load_warm_start_def train_mode_def example_config_def
      example_env_def fresh_state_def run_epoch_def epoch_end_def train_step_def
      sub_epoch_validation_def early_stopping_def torch_save_def emit_def
      makedirs_if_absent_def mean_loss_def denominator_def num_batches_def end_val_mean_def
      sub_val_mean_def fsum_def Let_def upto.simps upt_rec)

section \<open>Warm start\<close>

text \<open>
  C8: with warm start switched on and the file \<^verbatim>\<open>epoch-N.pth\<close> of the warm-start epoch
  \<open>N\<close> absent, \<^verbatim>\<open>main\<close> ends with the error of the failed load and leaves the state as
  it was: nothing has been printed or saved, no training step has run.
\<close>

theorem warm_start_without_checkpoint_aborts:
  assumes "warm_start cfg" and "EpochFile (warm_start_epoch cfg) \<notin> files s"
  shows "main cfg env s = (Some CheckpointNotFound, s)"
  using assms by (simp add: main_def load_warm_start_def)

text \<open>
  C8 on the scenario of the specification: warm start from epoch 5, no file at all.
\<close>

theorem warm_start_without_checkpoint_aborts_witness:
  "warm_start ((example_config 10 10)\<lparr>warm_start := True, warm_start_epoch := 5\<rparr>) \<and>
   EpochFile (warm_start_epoch ((example_config 10 10)\<lparr>warm_start := True, warm_start_epoch := 5\<rparr>))
     \<notin> files (fresh_state True) \<and>
   main ((example_config 10 10)\<lparr>warm_start := True, warm_start_epoch := 5\<rparr>)
     (example_env 9 (\<lambda>e. Fin 1) (\<lambda>e. Fin 1)) (fresh_state True)
     = (Some CheckpointNotFound, fresh_state True) \<and>
   events (fresh_state True) = []"
proof -
  let ?C = "(example_config 10 10)\<lparr>warm_start := True, warm_start_epoch := 5\<rparr>"
  have h1: "warm_start ?C" by simp
  have h2: "EpochFile (warm_start_epoch ?C) \<notin> files (fresh_state True)"
    by (simp add: fresh_state_def)
  have e: "events (fresh_state True) = []" by (simp add: fresh_state_def)
  from warm_start_without_checkpoint_aborts [OF h1 h2] h1 h2 e show ?thesis by blast
qed

section \<open>The reduction of test mode\<close>

lemma weighted_sum_eq:
  "weighted_sum f i xs acc = acc + (\<Sum>k < length xs. f (i + int k) (xs ! k))"
proof (induction xs arbitrary: i acc)
  case Nil
  then show ?case by simp
next
  case (Cons x xs)
  have "(\<Sum>k < Suc (length xs). f (i + int k) ((x # xs) ! k))
      = f (i + int 0) ((x # xs) ! 0) + (\<Sum>k < length xs. f (i + int (Suc k)) ((x # xs) ! Suc k))"
    by (rule sum.lessThan_Suc_shift)
  also have "\<dots> = f i x + (\<Sum>k < length xs. f (i + 1 + int k) (xs ! k))"
    by (simp add: ac_simps)
  finally have "(\<Sum>k < length (x # xs). f (i + int k) ((x # xs) ! k))
      = f i x + (\<Sum>k < length xs. f (i + 1 + int k) (xs ! k))"
    by simp
  with Cons.IH [of "i + 1" "acc + f i x"] show ?case by simp
qed

lemma sum_one_to_ten:
  fixes g :: "nat \<Rightarrow> real"
  shows "(\<Sum>k < 10. g (Suc k)) = (\<Sum>i = 1..10. g i)"
proof -
  have "(\<Sum>i = 1..10. g i) = (\<Sum>i = Suc 0..Suc 9. g i)" by simp
  also have "\<dots> = (\<Sum>i = 0..9. g (Suc i))" by (rule sum.shift_bounds_cl_Suc_ivl)
  also have "{0..9::nat} = {..<10}" by auto
  finally show ?thesis by simp
qed

lemma predicted_mean_eq:
  assumes "length output = 10"
  shows "predicted_mean output = (\<Sum>i = 1..10. real i * output ! (i - 1))"
proof -
  have "predicted_mean output = (\<Sum>k < 10. real (Suc k) * output ! (Suc k - 1))"
    using assms by (simp add: predicted_mean_def weighted_sum_eq add.commute)
  with sum_one_to_ten [of "\<lambda>n. real n * output ! (n - 1)"] show ?thesis by simp
qed

lemma predicted_std_eq:
  assumes "length output = 10"
  shows "predicted_std output =
     (if (\<Sum>i = 1..10. output ! (i - 1) * (real i - predicted_mean output) ^ 2) < 0 then NaN
      else Fin (sqrt (\<Sum>i = 1..10. output ! (i - 1) * (real i - predicted_mean output) ^ 2)))"
proof -
  have "weighted_sum (\<lambda>j elem. elem * (of_int j - predicted_mean output) ^ 2) 1 output 0
      = (\<Sum>k < 10. output ! (Suc k - 1) * (real (Suc k) - predicted_mean output) ^ 2)"
    using assms by (simp add: weighted_sum_eq add.commute)
  with sum_one_to_ten [of "\<lambda>n. output ! (n - 1) * (real n - predicted_mean output) ^ 2"]
  have "weighted_sum (\<lambda>j elem. elem * (of_int j - predicted_mean output) ^ 2) 1 output 0
      = (\<Sum>i = 1..10. output ! (i - 1) * (real i - predicted_mean output) ^ 2)"
    by simp
  then show ?thesis by (simp add: predicted_std_def Let_def)
qed

lemma test_loop_map:
  "\<forall>output \<in> set outputs. length output = 10 \<Longrightarrow>
   test_loop outputs s =
     (None, s\<lparr>mean_preds := mean_preds s @ map predicted_mean outputs,
              std_preds := std_preds s @ map predicted_std outputs\<rparr>)"
  by (induction outputs arbitrary: s) simp_all

text \<open>
  C9: in test mode the ten scores of a sample are reduced to the mean
  \<open>\<Sum>i = 1..10. i * score i\<close> and to the square root of
  \<open>\<Sum>i = 1..10. score i * (i - mean)\<^sup>2\<close>, with the finished mean in the second sum
  (NaN when that sum is negative); the results of a run over several samples are the
  results of each sample on its own, in order; and the scores \<open>1, 0, \<dots>, 0\<close> give the
  mean 1 and the deviation 0.
\<close>

theorem test_mode_mean_and_std:
  "(length scores = 10 \<longrightarrow>
      predicted_mean scores = (\<Sum>i = 1..10. real i * scores ! (i - 1)) \<and>
      predicted_std scores =
        (if (\<Sum>i = 1..10. scores ! (i - 1) * (real i - predicted_mean scores) ^ 2) < 0 then NaN
         else Fin (sqrt (\<Sum>i = 1..10. scores ! (i - 1) * (real i - predicted_mean scores) ^ 2)))) \<and>
   ((\<forall>output \<in> set outputs. length output = 10) \<longrightarrow>
      test_loop outputs s =
        (None, s\<lparr>mean_preds := mean_preds s @ map predicted_mean outputs,
                 std_preds := std_preds s @ map predicted_std outputs\<rparr>)) \<and>
   (0 < test_batch_size cfg \<and> (\<forall>output \<in> set (test_outputs env). length output = 10) \<longrightarrow>
      test_mode cfg env s =
        (None, s\<lparr>mean_preds := map predicted_mean (test_outputs env),
                 std_preds := map predicted_std (test_outputs env)\<rparr>)) \<and>
   predicted_mean [1, 0, 0, 0, 0, 0, 0, 0, 0, 0] = 1 \<and>
   predicted_std [1, 0, 0, 0, 0, 0, 0, 0, 0, 0] = Fin 0"
proof -
  have 1: "length scores = 10 \<longrightarrow>
      predicted_mean scores = (\<Sum>i = 1..10. real i * scores ! (i - 1)) \<and>
      predicted_std scores =
        (if (\<Sum>i = 1..10. scores ! (i - 1) * (real i - predicted_mean scores) ^ 2) < 0 then NaN
         else Fin (sqrt (\<Sum>i = 1..10. scores ! (i - 1) * (real i - predicted_mean scores) ^ 2)))"
    using predicted_mean_eq [of scores] predicted_std_eq [of scores] by blast
  have 2: "(\<forall>output \<in> set outputs. length output = 10) \<longrightarrow>
      test_loop outputs s =
        (None, s\<lparr>mean_preds := mean_preds s @ map predicted_mean outputs,
                 std_preds := std_preds s @ map predicted_std outputs\<rparr>)"
    using test_loop_map [of outputs s] by blast
  have 3: "0 < test_batch_size cfg \<and> (\<forall>output \<in> set (test_outputs env). length output = 10) \<longrightarrow>
      test_mode cfg env s =
        (None, s\<lparr>mean_preds := map predicted_mean (test_outputs env),
                 std_preds := map predicted_std (test_outputs env)\<rparr>)"
    by (simp add: test_mode_def test_loop_map)
  have 4: "predicted_mean [1, 0, 0, 0, 0, 0, 0, 0, 0, 0] = 1"
    by (simp add: predicted_mean_def)
  have 5: "predicted_std [1, 0, 0, 0, 0, 0, 0, 0, 0, 0] = Fin 0"
    by (simp add: predicted_std_def predicted_mean_def)
  from 1 2 3 4 5 show ?thesis by (intro conjI)
qed

text \<open>
  C9 on two samples: all the weight on rank 1, then all the weight on rank 2.
\<close>

theorem test_mode_mean_and_std_witness:
  "length [1, 0, 0, 0, 0, 0, 0, 0, 0, 0 :: real] = 10 \<and>
   predicted_mean [1, 0, 0, 0, 0, 0, 0, 0, 0, 0]
     = (\<Sum>i = 1..10. real i * [1, 0, 0, 0, 0, 0, 0, 0, 0, 0] ! (i - 1)) \<and>
   mean_preds (snd (test_loop
      [[1, 0, 0, 0, 0, 0, 0, 0, 0, 0], [0, 1, 0, 0, 0, 0, 0, 0, 0, 0]] (fresh_state True)))
     = [1, 2] \<and>
   std_preds (snd (test_loop
      [[1, 0, 0, 0, 0, 0, 0, 0, 0, 0], [0, 1, 0, 0, 0, 0, 0, 0, 0, 0]] (fresh_state True)))
     = [Fin 0, Fin 0]"
proof -
  let ?a = "[1, 0, 0, 0, 0, 0, 0, 0, 0, 0 :: real]"
  let ?b = "[0, 1, 0, 0, 0, 0, 0, 0, 0, 0 :: real]"
  note t = test_mode_mean_and_std [where scores = ?a and outputs = "[?a, ?b]"
      and s = "fresh_state True"]
  have l: "length ?a = 10" by simp
  have ls: "\<forall>x \<in> set [?a, ?b]. length x = 10" by simp
  from t l have m: "predicted_mean ?a = (\<Sum>i = 1..10. real i * ?a ! (i - 1))"
    by blast
  from t ls have r: "test_loop [?a, ?b] (fresh_state True) =
      (None, (fresh_state True)\<lparr>mean_preds := mean_preds (fresh_state True) @ map predicted_mean [?a, ?b],
                 std_preds := std_preds (fresh_state True) @ map predicted_std [?a, ?b]\<rparr>)"
    by blast
  have pm: "predicted_mean ?b = 2" by (simp add: predicted_mean_def)
  have ps: "predicted_std ?b = Fin 0" by (simp add: predicted_std_def predicted_mean_def)
  from t have pa: "predicted_mean ?a = 1" and sa: "predicted_std ?a = Fin 0" by blast+
  from r pm ps pa sa have "mean_preds (snd (test_loop [?a, ?b] (fresh_state True))) = [1, 2]"
    and "std_preds (snd (test_loop [?a, ?b] (fresh_state True))) = [Fin 0, Fin 0]"
    by (simp_all add: fresh_state_def)
  with l m show ?thesis by blast
qed

end
